theory Spec2Isabelle
  imports Main
begin

section \<open>The data-access object \<open>DaoSshMysql\<close> (src/dal/dao-ssh/dao-ssh-mysql.ts)\<close>

text \<open>
  The class talks to a MySQL server through the query builder knex. The model keeps the
  statements the class builds as data (the list of where-clauses in the order the builder
  calls add them, the order-by entry, limit and offset) and evaluates them over a table
  given as a list of rows. JavaScript values that may be missing (\<open>undefined\<close>,
  \<open>null\<close>) are options; exceptions are the left summand of a sum type.
\<close>

subsection \<open>Errors\<close>

datatype error =
    TypeError                \<comment> \<open>a property read on \<open>undefined\<close>\<close>
  | HttpException            \<comment> \<open>thrown by \<open>getMySqlDriver\<close> when the tunnel fails\<close>
  | DriverError string       \<comment> \<open>a failed statement, as the driver reports it\<close>
  | WrappedError error       \<comment> \<open>\<open>throw new Error(e)\<close>\<close>
  | BuilderError             \<comment> \<open>thrown by the query builder while a statement is built\<close>

subsection \<open>Truthiness of JavaScript numbers and strings\<close>

text \<open>
  The numbers of a call (page, page size, lengths, counts) are integers. Sums and products
  of integers are exact in the double arithmetic of the code as long as they stay below
  \<open>2^53\<close> in magnitude, and the model computes them as integers; a quotient is not an
  integer computation and is kept unevaluated.
\<close>

definition truthy_num :: "int option \<Rightarrow> bool" where
  "truthy_num x = (case x of None \<Rightarrow> False | Some n \<Rightarrow> n \<noteq> 0)"

definition truthy_str :: "string option \<Rightarrow> bool" where
  "truthy_str x = (case x of None \<Rightarrow> False | Some s \<Rightarrow> s \<noteq> [])"

definition num_le0 :: "int option \<Rightarrow> bool" where
  \<comment> \<open>\<open>x <= 0\<close>; \<open>undefined <= 0\<close> is false\<close>
  "num_le0 x = (case x of None \<Rightarrow> False | Some n \<Rightarrow> n \<le> 0)"

definition num_gt0 :: "int option \<Rightarrow> bool" where
  "num_gt0 x = (case x of None \<Rightarrow> False | Some n \<Rightarrow> n > 0)"

subsection \<open>The where-chain of the query builder\<close>

text \<open>
  Every \<open>andWhere\<close>, \<open>andWhereNot\<close>, \<open>orWhere\<close> and \<open>orWhereRaw\<close> call appends one
  clause to the statement, tagged with the connective that joins it to the clauses before it.
  The compiled SQL is the flat sequence of the clauses separated by their connectives, the
  connective of the first clause dropped, with no parentheses: the builder groups only
  what is passed to it as a nested callback, and this class passes none.
\<close>

datatype connector = And | Or

datatype 'v operand =
    Template string 'v string   \<comment> \<open>a template literal: prefix, \<open>${value}\<close>, suffix\<close>
  | Plain 'v                    \<comment> \<open>the value passed as it is\<close>
  | Text string                 \<comment> \<open>a string the code has built\<close>

datatype 'v condition =
    Basic string string "'v operand"   \<comment> \<open>column, operator, value\<close>
  | Raw string "string list"           \<comment> \<open>raw SQL with its bindings\<close>

datatype 'v where_clause =
  Where (joiner: connector) (negated: bool) (cond: "'v condition")

definition andWhere ::
  "'v where_clause list \<Rightarrow> string \<Rightarrow> string \<Rightarrow> 'v operand \<Rightarrow> 'v where_clause list" where
  "andWhere builder column operator v = builder @ [Where And False (Basic column operator v)]"

definition andWhereNot ::
  "'v where_clause list \<Rightarrow> string \<Rightarrow> string \<Rightarrow> 'v operand \<Rightarrow> 'v where_clause list" where
  "andWhereNot builder column operator v = builder @ [Where And True (Basic column operator v)]"

definition orWhere ::
  "'v where_clause list \<Rightarrow> string \<Rightarrow> string \<Rightarrow> 'v operand \<Rightarrow> 'v where_clause list" where
  "orWhere builder column operator v = builder @ [Where Or False (Basic column operator v)]"

definition orWhereRaw ::
  "'v where_clause list \<Rightarrow> string \<Rightarrow> string list \<Rightarrow> 'v where_clause list" where
  "orWhereRaw builder sql bindings = builder @ [Where Or False (Raw sql bindings)]"

text \<open>
  The truth of a flat chain on one row. In SQL \<open>AND\<close> binds tighter than \<open>OR\<close>, so the
  chain is a disjunction of maximal runs of \<open>AND\<close>-joined clauses. \<open>lit c\<close> says that
  clause \<open>c\<close>, its negation included, evaluates to TRUE on the row; a chain of
  conjunctions and disjunctions over such clauses is TRUE in SQL's three-valued logic
  exactly when it is true for these truth values. \<open>chain_holds lit acc cs\<close> carries in
  \<open>acc\<close> the truth of the run that is being read.
\<close>

fun chain_holds :: "('v where_clause \<Rightarrow> bool) \<Rightarrow> bool \<Rightarrow> 'v where_clause list \<Rightarrow> bool" where
  "chain_holds lit acc [] = acc"
| "chain_holds lit acc (c # cs) =
     (case joiner c of
        And \<Rightarrow> chain_holds lit (acc \<and> lit c) cs
      | Or \<Rightarrow> acc \<or> chain_holds lit (lit c) cs)"

fun where_holds :: "('v where_clause \<Rightarrow> bool) \<Rightarrow> 'v where_clause list \<Rightarrow> bool" where
  "where_holds lit [] = True"
| "where_holds lit (c # cs) = chain_holds lit (lit c) cs"

subsection \<open>Filters and free-text search\<close>

datatype FilterCriteriaEnum =
    Eq | Startswith | Endswith | Gt | Lt | Lte | Gte | Contains | Icontains
  | Unrecognized string   \<comment> \<open>any other value: the \<open>switch\<close> has no default branch\<close>

record 'v filterObject =
  field :: string
  criteria :: FilterCriteriaEnum
  fvalue :: 'v

definition filter_switch :: "'v where_clause list \<Rightarrow> 'v filterObject \<Rightarrow> 'v where_clause list" where
  \<comment> \<open>the body of the loop over \<open>filteringFields\<close> (lines 261-290 and 632-661)\<close>
  "filter_switch builder filterObject =
     (case criteria filterObject of
        Eq \<Rightarrow> andWhere builder (field filterObject) ''='' (Template [] (fvalue filterObject) [])
      | Startswith \<Rightarrow>
          andWhere builder (field filterObject) ''like'' (Template [] (fvalue filterObject) ''%'')
      | Endswith \<Rightarrow>
          andWhere builder (field filterObject) ''like'' (Template ''%'' (fvalue filterObject) [])
      | Gt \<Rightarrow> andWhere builder (field filterObject) ''>'' (Plain (fvalue filterObject))
      | Lt \<Rightarrow> andWhere builder (field filterObject) ''<'' (Plain (fvalue filterObject))
      | Lte \<Rightarrow> andWhere builder (field filterObject) ''<='' (Plain (fvalue filterObject))
      | Gte \<Rightarrow> andWhere builder (field filterObject) ''>='' (Plain (fvalue filterObject))
      | Contains \<Rightarrow>
          andWhere builder (field filterObject) ''like'' (Template ''%'' (fvalue filterObject) ''%'')
      | Icontains \<Rightarrow>
          andWhereNot builder (field filterObject) ''like''
            (Template ''%'' (fvalue filterObject) ''%'')
      | Unrecognized _ \<Rightarrow> builder)"

definition filters_modifier ::
  "'v filterObject list option \<Rightarrow> 'v where_clause list \<Rightarrow> 'v where_clause list" where
  \<comment> \<open>\<open>.modify((builder) => { if (filteringFields && filteringFields.length > 0) ... })\<close>\<close>
  "filters_modifier filteringFields builder =
     (case filteringFields of
        None \<Rightarrow> builder
      | Some fs \<Rightarrow> if length fs > 0 then foldl filter_switch builder fs else builder)"

subsection \<open>Table settings and the arrays they hold\<close>

text \<open>
  \<open>findAvaliableFields\<close> edits an array in place, and that array can be the very array the
  caller's settings hold. Arrays of field names therefore live in a store, a list of
  arrays addressed by position, and \<open>list_fields\<close> and \<open>excluded_fields\<close> are references into
  it. An array that is only read (\<open>search_fields\<close>) is kept as a value.
\<close>

type_synonym ref = nat

type_synonym array_store = "string list list"

definition deref :: "'a list list \<Rightarrow> ref \<Rightarrow> 'a list" where
  "deref store r = (if r < length store then store ! r else [])"

record ITableSettings =
  list_fields :: "ref option"
  excluded_fields :: "ref option"
  search_fields :: "string list option"
  ordering_field :: "string option"
  ordering :: "string option"
  list_per_page :: "int option"

definition isObjectEmpty :: "ITableSettings \<Rightarrow> bool" where
  \<comment> \<open>Modelled from the spec: the helper \<open>isObjectEmpty\<close> of \<open>helpers\<close> is not in the
      sources; the settings are "absent/empty" when the object has no field at all.\<close>
  "isObjectEmpty settings =
     (list_fields settings = None \<and> excluded_fields settings = None \<and>
      search_fields settings = None \<and> ordering_field settings = None \<and>
      ordering settings = None \<and> list_per_page settings = None)"

definition search_modifier ::
  "ITableSettings \<Rightarrow> string option \<Rightarrow> 'v where_clause list \<Rightarrow> 'v where_clause list" where
  \<comment> \<open>\<open>if (search_fields && searchedFieldValue && search_fields.length > 0)\<close>
      (lines 250-255 and 667-672)\<close>
  "search_modifier settings searchedFieldValue builder =
     (case search_fields settings of
        None \<Rightarrow> builder
      | Some sf \<Rightarrow>
          if truthy_str searchedFieldValue \<and> length sf > 0
          then foldl (\<lambda>b f. orWhereRaw b '' CAST (?? AS CHAR (255))=?'' [f, the searchedFieldValue])
                 builder sf
          else builder)"

definition count_wheres ::
  "'v filterObject list option \<Rightarrow> ITableSettings \<Rightarrow> string option \<Rightarrow> 'v where_clause list" where
  \<comment> \<open>the where-chain of \<open>getRowsCount\<close>: the filters first, then the search\<close>
  "count_wheres filteringFields settings searchedFieldValue =
     search_modifier settings searchedFieldValue (filters_modifier filteringFields [])"

definition rows_wheres ::
  "ITableSettings \<Rightarrow> string option \<Rightarrow> 'v filterObject list option \<Rightarrow> 'v where_clause list" where
  \<comment> \<open>the where-chain of the data select of \<open>getRowsFromTable\<close>: the search first, then
      the filters\<close>
  "rows_wheres settings searchedFieldValue filteringFields =
     filters_modifier filteringFields (search_modifier settings searchedFieldValue [])"

text \<open>
  The server's side of a statement: the rows of the table that the where-chain selects.
  \<open>lit r c\<close> says that clause \<open>c\<close> is TRUE on row \<open>r\<close>.
\<close>

definition matching ::
  "'row list \<Rightarrow> ('row \<Rightarrow> 'v where_clause \<Rightarrow> bool) \<Rightarrow> 'v where_clause list \<Rightarrow> 'row list" where
  "matching rows lit ws = filter (\<lambda>r. where_holds (lit r) ws) rows"

definition getRowsCount ::
  "'row list \<Rightarrow> ('row \<Rightarrow> 'v where_clause \<Rightarrow> bool) \<Rightarrow>
   'v filterObject list option \<Rightarrow> ITableSettings \<Rightarrow> string option \<Rightarrow> int" where
  \<comment> \<open>\<open>count(*)\<close> under the where-chain of \<open>getRowsCount\<close>\<close>
  "getRowsCount rows lit filteringFields settings searchedFieldValue =
     int (length (matching rows lit (count_wheres filteringFields settings searchedFieldValue)))"

subsection \<open>Strings\<close>

definition js_slice :: "string \<Rightarrow> int \<Rightarrow> int \<Rightarrow> string" where
  \<comment> \<open>\<open>String.prototype.slice(start, end)\<close>: a negative index counts from the end, and
      both are clamped to the string\<close>
  "js_slice s start fin =
     (let n = int (length s);
          from = (if start < 0 then max (n + start) 0 else min start n);
          to = (if fin < 0 then max (n + fin) 0 else min fin n)
      in take (nat (to - from)) (drop (nat from) s))"

fun split_from :: "string \<Rightarrow> string \<Rightarrow> string \<Rightarrow> string list" where
  \<comment> \<open>the pieces of the text between the occurrences of a non-empty separator, read
      from the left; the second argument is the piece being read, reversed\<close>
  "split_from sep piece [] = [rev piece]"
| "split_from sep piece (c # cs) =
     (if sep \<noteq> [] \<and> take (length sep) (c # cs) = sep
      then rev piece # split_from sep [] (drop (length sep) (c # cs))
      else split_from sep (c # piece) cs)"

definition js_split :: "string \<Rightarrow> string \<Rightarrow> string list" where
  \<comment> \<open>\<open>String.prototype.split(separator)\<close>; an empty separator cuts between all characters\<close>
  "js_split s sep = (if sep = [] then map (\<lambda>c. [c]) s else split_from sep [] s)"

definition toLowerCase :: "string \<Rightarrow> string" where
  \<comment> \<open>on the letters A to Z; the type names of the catalog are ASCII\<close>
  "toLowerCase s =
     map (\<lambda>c. if c \<in> set ''ABCDEFGHIJKLMNOPQRSTUVWXYZ''
              then char_of (of_char c + (32::nat)) else c) s"

fun indexOf :: "'a list \<Rightarrow> 'a \<Rightarrow> int" where
  \<comment> \<open>\<open>Array.prototype.indexOf\<close>: the first position of the element, or -1\<close>
  "indexOf [] x = - 1"
| "indexOf (y # ys) x =
     (if y = x then 0 else (let i = indexOf ys x in if i < 0 then - 1 else i + 1))"

definition is_digit :: "char \<Rightarrow> bool" where
  "is_digit c = (c \<in> set ''0123456789'')"

definition getNumbersFromString :: "string \<Rightarrow> int option" where
  \<comment> \<open>Modelled from the spec: the helper \<open>getNumbersFromString\<close> of \<open>helpers\<close> is not in the
      sources; it is to "extract first run of digits from a string", the "first embedded
      integer", with no result when the string has no digit.\<close>
  "getNumbersFromString str =
     (let run = takeWhile is_digit (dropWhile (\<lambda>c. \<not> is_digit c) str)
      in if run = [] then None
         else Some (foldl (\<lambda>n c. 10 * n + (int (of_char c) - 48)) 0 run))"

subsection \<open>Table structure\<close>

text \<open>
  A row of \<open>information_schema.columns\<close> as the driver returns it, and the entry of the
  structure that \<open>getTableStructure\<close> makes of it. \<open>objectKeysToLowercase\<close> turns the
  keys of the first into the keys of the second; \<open>renameObjectKeyName\<close> renames
  \<open>is_nullable\<close> to \<open>allow_null\<close>.
\<close>

record catalog_column =
  COLUMN_NAME :: string
  COLUMN_DEFAULT :: "string option"
  DATA_TYPE :: string
  COLUMN_TYPE :: string
  IS_NULLABLE :: string
  EXTRA :: string
  CHARACTER_MAXIMUM_LENGTH :: "int option"

record IStructureInfo =
  column_name :: string
  column_default :: "string option"
  data_type :: string
  column_type :: string
  allow_null :: bool
  extra :: string
  character_maximum_length :: "int option"
  data_type_params :: "string list option"

definition normalize_element :: "catalog_column \<Rightarrow> IStructureInfo" where
  \<comment> \<open>the body of the loop of lines 458-483\<close>
  "normalize_element element =
     (let column_default1 =
            (if EXTRA element = ''auto_increment'' then Some ''auto_increment''
             else COLUMN_DEFAULT element);
          allow_null1 = (IS_NULLABLE element = ''YES'');
          params1 =
            (if DATA_TYPE element = ''enum''
             then Some (js_split
                    (js_slice (COLUMN_TYPE element) 6 (int (length (COLUMN_TYPE element)) - 2))
                    [CHR 0x27, CHR '','', CHR 0x27])
             else None);
          params2 =
            (if DATA_TYPE element = ''set''
             then Some (js_split
                    (js_slice (COLUMN_TYPE element) 5 (int (length (COLUMN_TYPE element)) - 2))
                    [CHR 0x27, CHR '','', CHR 0x27])
             else params1);
          character_maximum_length1 =
            (if truthy_num (CHARACTER_MAXIMUM_LENGTH element)
             then CHARACTER_MAXIMUM_LENGTH element
             else if truthy_num (getNumbersFromString (COLUMN_TYPE element))
             then getNumbersFromString (COLUMN_TYPE element)
             else None)
      in \<lparr>column_name = COLUMN_NAME element,
          column_default = column_default1,
          data_type = DATA_TYPE element,
          column_type = COLUMN_TYPE element,
          allow_null = allow_null1,
          extra = EXTRA element,
          character_maximum_length = character_maximum_length1,
          data_type_params = params2\<rparr>)"

text \<open>
  What the tunnel and the server answer during one call: whether the tunnelled driver could
  be had, and the answers to the statements the class sends. A failed statement is an
  error of the driver.
\<close>

record 'v server =
  tunnel_up :: bool
  columns_answer :: "error + catalog_column list"
  primary_answer :: "error + string list"
      \<comment> \<open>the \<open>column_name\<close>s of the rows with \<open>COLUMN_KEY = 'PRI'\<close>\<close>
  insert_answer :: "(string \<times> 'v) list \<Rightarrow> error option"
  last_insert_id_answer :: "error + 'v list"
  update_answer :: "(string \<times> 'v) list \<Rightarrow> error + 'v"

definition getTableStructure :: "('v, 'x) server_scheme \<Rightarrow> error + IStructureInfo list" where
  "getTableStructure srv =
     (if \<not> tunnel_up srv then Inl HttpException
      else case columns_answer srv of
             Inl e \<Rightarrow> Inl e
           | Inr structureColumns \<Rightarrow> Inr (map normalize_element structureColumns))"

definition getTablePrimaryColumns :: "('v, 'x) server_scheme \<Rightarrow> error + string list" where
  "getTablePrimaryColumns srv =
     (if \<not> tunnel_up srv then Inl HttpException else primary_answer srv)"

subsection \<open>The projected fields\<close>

definition splice1 :: "'a list \<Rightarrow> int \<Rightarrow> 'a list" where
  \<comment> \<open>\<open>Array.prototype.splice(start, 1)\<close> for a start within the array\<close>
  "splice1 xs start = take (nat start) xs @ drop (Suc (nat start)) xs"

lemma length_splice1_le: "length (splice1 xs i) \<le> length xs"
  by (simp add: splice1_def)

lemma length_deref_update_le:
  "length ys \<le> length (deref store a) \<Longrightarrow> length (deref (store[a := ys]) e) \<le> length (deref store e)"
  by (cases "a = e") (auto simp: deref_def split: if_splits)

text \<open>
  The loop \<open>for (const field of excludedFields)\<close> reads the array of excluded fields by
  position while it edits the array of available fields; the two can be one array.
\<close>

function exclude_loop :: "array_store \<Rightarrow> ref \<Rightarrow> ref \<Rightarrow> nat \<Rightarrow> array_store" where
  "exclude_loop store excludedFields availableFields i =
     (if i < length (deref store excludedFields)
      then let field = deref store excludedFields ! i;
               delIndex = indexOf (deref store availableFields) field
           in if delIndex \<ge> 0
              then exclude_loop
                     (store[availableFields :=
                        splice1 (deref store availableFields)
                          (indexOf (deref store availableFields) field)])
                     excludedFields availableFields (i + 1)
              else exclude_loop store excludedFields availableFields (i + 1)
      else store)"
  by pat_completeness auto
termination
proof (relation "measure (\<lambda>(store, e, a, i). length (deref store e) - i)", goal_cases)
  case 1
  show ?case by simp
next
  case (2 store e a i field delIndex)
  have "length (deref (store[a := splice1 (deref store a) (indexOf (deref store a) field)]) e)
        \<le> length (deref store e)"
    by (rule length_deref_update_le) (rule length_splice1_le)
  with 2 show ?case by simp
next
  case (3 store e a i field delIndex)
  then show ?case by simp
qed

declare exclude_loop.simps [simp del]

definition findAvaliableFields ::
  "('v, 'x) server_scheme \<Rightarrow> ITableSettings \<Rightarrow> array_store \<Rightarrow> (error + ref) \<times> array_store" where
  \<comment> \<open>returns the array of available fields, as a reference, and the store after the call;
      \<open>tableStructure.map(...)\<close> makes a new array, at the end of the store\<close>
  "findAvaliableFields srv settings store =
     (if isObjectEmpty settings
      then (case getTableStructure srv of
              Inl e \<Rightarrow> (Inl e, store)
            | Inr tableStructure \<Rightarrow>
                (Inr (length store), store @ [map column_name tableStructure]))
      else
        let excludedFields = excluded_fields settings;
            found =
              (if list_fields settings \<noteq> None \<and> length (deref store (the (list_fields settings))) > 0
               then (Inr (the (list_fields settings)), store)
               else (case getTableStructure srv of
                       Inl e \<Rightarrow> (Inl e, store)
                     | Inr tableStructure \<Rightarrow>
                         (Inr (length store), store @ [map column_name tableStructure])))
        in case fst found of
             Inl e \<Rightarrow> (Inl e, snd found)
           | Inr availableFields \<Rightarrow>
               if excludedFields \<noteq> None \<and> length (deref (snd found) (the excludedFields)) > 0
               then (Inr availableFields,
                     exclude_loop (snd found) (the excludedFields) availableFields 0)
               else (Inr availableFields, snd found))"

subsection \<open>Reading rows\<close>

record Constants =
  DEFAULT_PAGINATION_page :: int
  DEFAULT_PAGINATION_perPage :: int
  AUTOCOMPLETE_ROW_LIMIT :: int

record autocomplete =
  ac_fields :: "string list option"
  ac_value :: "string option"

record 'v select_stmt =
  columns :: "string list"
  wheres :: "'v where_clause list"
  orderBy :: "(string option \<times> string option) option"
  limit :: "int option"
  offset :: "int option"

datatype js_ceil =
  Ceil_of_quotient int "int option"
    \<comment> \<open>\<open>Math.ceil(a / b)\<close>: a quotient in double arithmetic, which is not evaluated here; the
        value keeps the two operands\<close>

record pagination =
  total :: int
  lastPage :: js_ceil
  perPage :: "int option"
  currentPage :: "int option"

text \<open>
  The result of \<open>getRowsFromTable\<close>. \<open>data\<close> is what the server answers to a select
  statement; the model keeps the statement that is sent. A statement that the query builder
  refuses to build is an error of the call.
\<close>

record 'v IDaoRowsRO =
  data :: "'v select_stmt"
  pagination :: "pagination option"   \<comment> \<open>\<open>None\<close> is the empty object\<close>

definition resolve_pagination ::
  "Constants \<Rightarrow> ITableSettings \<Rightarrow> int option \<Rightarrow> int option \<Rightarrow> int option \<times> int option" where
  \<comment> \<open>lines 200-208: the page and the page size after the defaults\<close>
  "resolve_pagination consts settings page per_page =
     (if \<not> truthy_num page \<or> num_le0 page
      then (Some (DEFAULT_PAGINATION_page consts),
            if (truthy_num (list_per_page settings) \<and> num_gt0 (list_per_page settings)) \<and>
               (\<not> truthy_num per_page \<or> num_le0 per_page)
            then list_per_page settings
            else Some (DEFAULT_PAGINATION_perPage consts))
      else (page, per_page))"

definition page_offset :: "int option \<Rightarrow> int option \<Rightarrow> int option" where
  \<comment> \<open>\<open>(page - 1) * perPage\<close>; not a number when \<open>perPage\<close> is missing\<close>
  "page_offset page per_page =
     (case page of
        None \<Rightarrow> None
      | Some p \<Rightarrow> (case per_page of None \<Rightarrow> None | Some pp \<Rightarrow> Some ((p - 1) * pp)))"

definition offset_rejected :: "int option \<Rightarrow> bool" where
  \<comment> \<open>the builder's \<open>.offset(value)\<close> throws "A non-negative integer must be provided to
      offset." for a negative integer; a value that is not a number is left unset\<close>
  "offset_rejected value = (case value of None \<Rightarrow> False | Some n \<Rightarrow> n < 0)"

definition comma :: "'a \<Rightarrow> 'b \<Rightarrow> 'b" where
  \<comment> \<open>the comma operator: both operands are evaluated, the value is the second\<close>
  "comma a b = b"

definition order_modifier :: "ITableSettings \<Rightarrow> (string option \<times> string option) option" where
  \<comment> \<open>lines 294-298: \<open>if ((settings.ordering_field, settings.ordering))\<close>\<close>
  "order_modifier settings =
     (if truthy_str (comma (ordering_field settings) (ordering settings))
      then Some (ordering_field settings, ordering settings)
      else None)"

definition autocomplete_requested :: "autocomplete option \<Rightarrow> error + bool" where
  \<comment> \<open>lines 217-220; \<open>.fields.length\<close> on a missing \<open>fields\<close> is a TypeError\<close>
  "autocomplete_requested autocompleteFields =
     (case autocompleteFields of
        None \<Rightarrow> Inr False
      | Some ac \<Rightarrow>
          if ac_fields ac = None \<and> ac_value ac = None then Inr False
          else if \<not> truthy_str (ac_value ac) then Inr False
          else (case ac_fields ac of
                  None \<Rightarrow> Inl TypeError
                | Some fs \<Rightarrow> Inr (length fs > 0)))"

definition autocomplete_stmt :: "Constants \<Rightarrow> autocomplete \<Rightarrow> 'v select_stmt" where
  \<comment> \<open>lines 221-235\<close>
  "autocomplete_stmt consts ac =
     \<lparr>columns = the (ac_fields ac),
      wheres =
        (if the (ac_value ac) \<noteq> ''*''
         then foldl (\<lambda>b f. orWhere b f ''like'' (Text (the (ac_value ac) @ ''%''))) []
                (the (ac_fields ac))
         else []),
      orderBy = None,
      limit = Some (AUTOCOMPLETE_ROW_LIMIT consts),
      offset = None\<rparr>"

definition getRowsFromTable ::
  "Constants \<Rightarrow> ('w, 'x) server_scheme \<Rightarrow> 'row list \<Rightarrow> ('row \<Rightarrow> 'v where_clause \<Rightarrow> bool) \<Rightarrow>
   ITableSettings \<Rightarrow> int option \<Rightarrow> int option \<Rightarrow> string option \<Rightarrow>
   'v filterObject list option \<Rightarrow> autocomplete option \<Rightarrow> array_store \<Rightarrow>
   (error + 'v IDaoRowsRO) \<times> array_store" where
  "getRowsFromTable consts srv rows lit settings page per_page searchedFieldValue
       filteringFields autocompleteFields store =
     (if \<not> tunnel_up srv then (Inl HttpException, store)
      else
        let page1 = fst (resolve_pagination consts settings page per_page);
            perPage1 = snd (resolve_pagination consts settings page per_page);
            rowsCount = getRowsCount rows lit filteringFields settings searchedFieldValue;
            lastPage1 = Ceil_of_quotient rowsCount perPage1;
            offset1 = page_offset page1 perPage1;
            found = findAvaliableFields srv settings store
        in case fst found of
             Inl e \<Rightarrow> (Inl e, snd found)
           | Inr availableFields \<Rightarrow>
               (case autocomplete_requested autocompleteFields of
                  Inl e \<Rightarrow> (Inl e, snd found)
                | Inr True \<Rightarrow>
                    (Inr \<lparr>data = autocomplete_stmt consts (the autocompleteFields),
                          pagination = None\<rparr>,
                     snd found)
                | Inr False \<Rightarrow>
                    if offset_rejected offset1 then (Inl BuilderError, snd found)
                    else
                      (Inr \<lparr>data =
                              \<lparr>columns = deref (snd found) availableFields,
                               wheres = rows_wheres settings searchedFieldValue filteringFields,
                               orderBy = order_modifier settings,
                               limit = perPage1,
                               offset = offset1\<rparr>,
                            pagination =
                              Some \<lparr>total = rowsCount, lastPage = lastPage1,
                                    perPage = perPage1, currentPage = page1\<rparr>\<rparr>,
                       snd found)))"

definition where_object :: "'v where_clause list \<Rightarrow> (string \<times> 'v) list \<Rightarrow> 'v where_clause list" where
  \<comment> \<open>\<open>.where(object)\<close>: one AND-joined equality for every key of the object\<close>
  "where_object builder obj =
     foldl (\<lambda>b kv. andWhere b (fst kv) ''='' (Plain (snd kv))) builder obj"

definition getRowByPrimaryKey ::
  "('w, 'x) server_scheme \<Rightarrow> (string \<times> 'v) list \<Rightarrow> ITableSettings option \<Rightarrow> array_store \<Rightarrow>
   (error + 'v select_stmt) \<times> array_store" where
  \<comment> \<open>lines 147-174; the result is the select whose answer the function returns, and the
      columns \<open>*\<close> stand for a select without a projection\<close>
  "getRowByPrimaryKey srv primaryKey settings store =
     (if \<not> tunnel_up srv then (Inl HttpException, store)
      else if settings = None \<or> isObjectEmpty (the settings)
      then (Inr \<lparr>columns = [''*''], wheres = where_object [] primaryKey, orderBy = None,
                 limit = None, offset = None\<rparr>,
            store)
      else
        let found = findAvaliableFields srv (the settings) store
        in (case fst found of
              Inl e \<Rightarrow> (Inl e, snd found)
            | Inr availableFields \<Rightarrow>
                (Inr \<lparr>columns = deref (snd found) availableFields,
                      wheres = where_object [] primaryKey, orderBy = None,
                      limit = None, offset = None\<rparr>,
                 snd found)))"

subsection \<open>Writing rows\<close>

text \<open>
  The row is an object of the caller, passed by reference: it lives in a store of objects
  (each a list of key-value pairs with distinct keys), and the functions return the store
  as they leave it. \<open>JSON.stringify\<close> and the helper \<open>checkFieldAutoincrement\<close>, which is
  not in the sources, are parameters.
\<close>

type_synonym 'v object_store = "(string \<times> 'v) list list"

datatype 'v returned =
    NoValue                         \<comment> \<open>the function ends without a \<open>return\<close>\<close>
  | KeyValue string "'v option"     \<comment> \<open>\<open>{ [key]: value }\<close>; the value can be \<open>undefined\<close>\<close>

definition stringify_json_columns ::
  "('v \<Rightarrow> 'v) \<Rightarrow> IStructureInfo list \<Rightarrow> (string \<times> 'v) list \<Rightarrow> (string \<times> 'v) list" where
  \<comment> \<open>lines 36-47 and 493-504\<close>
  "stringify_json_columns stringify tableStructure row =
     (let jsonColumnNames =
            map column_name
              (filter (\<lambda>structEl. toLowerCase (data_type structEl) = ''json'') tableStructure)
      in map (\<lambda>(key, v). if key \<in> set jsonColumnNames then (key, stringify v) else (key, v)) row)"

definition addRowInTable ::
  "('v \<Rightarrow> 'v) \<Rightarrow> (string option \<Rightarrow> bool) \<Rightarrow> ('v, 'x) server_scheme \<Rightarrow>
   'v object_store \<Rightarrow> ref \<Rightarrow> (error + 'v returned) \<times> 'v object_store" where
  "addRowInTable stringify checkFieldAutoincrement srv store row =
     (case getTableStructure srv of
        Inl e \<Rightarrow> (Inl e, store)
      | Inr tableStructure \<Rightarrow>
          (let store1 =
                 store[row := stringify_json_columns stringify tableStructure (deref store row)]
           in (case getTablePrimaryColumns srv of
                 Inl e \<Rightarrow> (Inl e, store1)
               | Inr primaryColumns \<Rightarrow>
                   (case primaryColumns of
                      [] \<Rightarrow> (Inl TypeError, store1)
                    | primaryKey # _ \<Rightarrow>
                        (let primaryKeyIndexInStructure =
                               indexOf (map column_name tableStructure) primaryKey;
                             primaryKeyStructure =
                               (if 0 \<le> primaryKeyIndexInStructure
                                then Some (tableStructure ! nat primaryKeyIndexInStructure)
                                else None)
                         in if \<not> tunnel_up srv then (Inl HttpException, store1)
                            else if length primaryColumns > 0
                            then (case primaryKeyStructure of
                                    None \<Rightarrow> (Inl TypeError, store1)
                                  | Some pks \<Rightarrow>
                                      if \<not> checkFieldAutoincrement (column_default pks)
                                      then (case insert_answer srv (deref store1 row) of
                                              Some e \<Rightarrow> (Inl (WrappedError e), store1)
                                            | None \<Rightarrow>
                                                (Inr (KeyValue primaryKey
                                                       (map_of (deref store1 row) primaryKey)),
                                                 store1))
                                      else (case insert_answer srv (deref store1 row) of
                                              Some e \<Rightarrow> (Inl (WrappedError e), store1)
                                            | None \<Rightarrow>
                                                (case last_insert_id_answer srv of
                                                   Inl e \<Rightarrow> (Inl (WrappedError e), store1)
                                                 | Inr ids \<Rightarrow>
                                                     (case ids of
                                                        [] \<Rightarrow> (Inl (WrappedError TypeError), store1)
                                                      | v # _ \<Rightarrow>
                                                          (Inr (KeyValue primaryKey (Some v)),
                                                           store1)))))
                            else (case insert_answer srv (deref store1 row) of
                                    Some e \<Rightarrow> (Inl e, store1)
                                  | None \<Rightarrow> (Inr NoValue, store1)))))))"

definition updateRowInTable ::
  "('v \<Rightarrow> 'v) \<Rightarrow> ('v, 'x) server_scheme \<Rightarrow> 'v object_store \<Rightarrow> ref \<Rightarrow>
   (error + 'v) \<times> 'v object_store" where
  "updateRowInTable stringify srv store row =
     (case getTableStructure srv of
        Inl e \<Rightarrow> (Inl e, store)
      | Inr tableStructure \<Rightarrow>
          let store1 = store[row := stringify_json_columns stringify tableStructure (deref store row)]
          in if \<not> tunnel_up srv then (Inl HttpException, store1)
             else (update_answer srv (deref store1 row), store1))"

subsection \<open>The cache of drivers\<close>

record IConnection =
  host :: string
  username :: string
  password :: string
  database :: string
  port :: int
  conn_type :: string
  ssl :: bool
  cert :: string

datatype ssl_option = Ca string | RejectUnauthorized bool

datatype handle =
    SshMySqlClient IConnection int
      \<comment> \<open>the driver that \<open>getSshMySqlClient\<close> opens through the tunnel, at a local port\<close>
  | KnexInstance string string string string int ssl_option
      \<comment> \<open>a query builder: host, user, password, database, port, ssl\<close>

record Cacher =
  driverCache :: "IConnection \<rightharpoonup> handle"
  knexCache :: "IConnection \<rightharpoonup> handle"

definition getDriverCache :: "Cacher \<Rightarrow> IConnection \<Rightarrow> handle option" where
  \<comment> \<open>Modelled from the spec: the class \<open>Cacher\<close> of \<open>helpers/cache\<close> is not in the sources;
      \<open>get(descriptor)\<close> returns what was stored for a structurally equal descriptor.\<close>
  "getDriverCache cache connection = driverCache cache connection"

definition setDriverCache :: "Cacher \<Rightarrow> IConnection \<Rightarrow> handle \<Rightarrow> Cacher" where
  \<comment> \<open>Modelled from the spec: \<open>put(descriptor, resource)\<close> of the cache of drivers.\<close>
  "setDriverCache cache connection h = cache\<lparr>driverCache := (driverCache cache)(connection \<mapsto> h)\<rparr>"

definition getCachedKnex :: "Cacher \<Rightarrow> IConnection \<Rightarrow> handle option" where
  \<comment> \<open>Modelled from the spec: \<open>get(descriptor)\<close> of the cache of query-engine handles, held
      independently of the cache of drivers.\<close>
  "getCachedKnex cache connection = knexCache cache connection"

definition getMySqlDriver ::
  "(IConnection \<Rightarrow> int \<Rightarrow> error + handle) \<Rightarrow> int \<Rightarrow> Cacher \<Rightarrow> IConnection \<Rightarrow>
   (error + handle) \<times> Cacher" where
  \<comment> \<open>lines 584-605; \<open>getSshMySqlClient\<close> and the port that \<open>getPort\<close> finds are parameters\<close>
  "getMySqlDriver getSshMySqlClient freePort cache connection =
     (case getDriverCache cache connection of
        Some cachedDriver \<Rightarrow> (Inr cachedDriver, cache)
      | None \<Rightarrow>
          (case getSshMySqlClient connection freePort of
             Inl e \<Rightarrow> (Inl HttpException, cache)
           | Inr mySqlDriver \<Rightarrow> (Inr mySqlDriver, setDriverCache cache connection mySqlDriver)))"

definition configureKnex :: "Cacher \<Rightarrow> IConnection \<Rightarrow> handle \<times> Cacher" where
  \<comment> \<open>lines 98-120\<close>
  "configureKnex cache connectionConfig =
     (case getCachedKnex cache connectionConfig of
        Some cachedKnex \<Rightarrow> (cachedKnex, cache)
      | None \<Rightarrow>
          let newKnex =
                KnexInstance (host connectionConfig) (username connectionConfig)
                  (password connectionConfig) (database connectionConfig) (port connectionConfig)
                  (if ssl connectionConfig then Ca (cert connectionConfig)
                   else RejectUnauthorized False)
          in (newKnex, setDriverCache cache connectionConfig newKnex))"

definition testConnect ::
  "(IConnection \<Rightarrow> int \<Rightarrow> error + handle) \<Rightarrow> int \<Rightarrow> (handle \<Rightarrow> handle \<Rightarrow> error + bool) \<Rightarrow>
   Cacher \<Rightarrow> IConnection \<Rightarrow> bool \<times> Cacher" where
  \<comment> \<open>lines 535-550; \<open>select1 knex driver\<close> is the outcome of \<open>select(1)\<close>: an error, or
      whether the result is truthy\<close>
  "testConnect getSshMySqlClient freePort select1 cache connection =
     (case fst (getMySqlDriver getSshMySqlClient freePort cache connection) of
        Inl e \<Rightarrow> (False, snd (getMySqlDriver getSshMySqlClient freePort cache connection))
      | Inr mySqlDriver \<Rightarrow>
          let cache1 = snd (getMySqlDriver getSshMySqlClient freePort cache connection);
              knex = fst (configureKnex cache1 connection);
              cache2 = snd (configureKnex cache1 connection)
          in (case select1 knex mySqlDriver of
                Inl e \<Rightarrow> (False, cache2)
              | Inr result \<Rightarrow> (result, cache2)))"

subsection \<open>The claims of the specification, in its own words\<close>

definition spec_search_and_filters ::
  "('v where_clause \<Rightarrow> bool) \<Rightarrow> ITableSettings \<Rightarrow> string option \<Rightarrow> 'v filterObject list option \<Rightarrow> bool" where
  \<comment> \<open>the search comparisons form one group, joined by OR, and the group is one more
      conjunct beside the filter comparisons\<close>
  "spec_search_and_filters lit settings searchedFieldValue filteringFields =
     (list_ex lit (search_modifier settings searchedFieldValue []) \<and>
      list_all lit (filters_modifier filteringFields []))"


definition quote_sep :: string where
  \<comment> \<open>the separator \<open>','\<close> between the values of an enum or set type\<close>
  "quote_sep = [CHR 0x27, CHR '','', CHR 0x27]"

fun quote_join :: "string list \<Rightarrow> string" where
  "quote_join [] = []"
| "quote_join [v] = v"
| "quote_join (v # w # vs) = v @ quote_sep @ quote_join (w # vs)"

definition value_list_type :: "string \<Rightarrow> string list \<Rightarrow> string" where
  \<comment> \<open>the column type of an enum or set with the given values: \<open>enum('a','b','c')\<close>\<close>
  "value_list_type keyword vs = keyword @ ''('' @ [CHR 0x27] @ quote_join vs @ [CHR 0x27] @ '')''"

definition spec_max_length :: "catalog_column \<Rightarrow> int option" where
  \<comment> \<open>the catalog's own length, and when that is absent the first run of digits of the
      column type, and null when both are absent\<close>
  "spec_max_length element =
     (case CHARACTER_MAXIMUM_LENGTH element of
        Some n \<Rightarrow> Some n
      | None \<Rightarrow> getNumbersFromString (COLUMN_TYPE element))"

subsection \<open>An example table\<close>

text \<open>
  Rows with string values. \<open>eq_lit row c\<close> decides the equality comparisons that the
  examples below use: a comparison with \<open>=\<close>, and the comparison of the search; any other
  clause counts as not TRUE.
\<close>

definition eq_lit :: "(string \<times> string) list \<Rightarrow> string where_clause \<Rightarrow> bool" where
  "eq_lit row c =
     (case cond c of
        Basic col operator v \<Rightarrow>
          (case v of
             Template p x s \<Rightarrow> operator = ''='' \<and> \<not> negated c \<and> map_of row col = Some (p @ x @ s)
           | Plain x \<Rightarrow> False
           | Text x \<Rightarrow> False)
      | Raw sql bindings \<Rightarrow>
          sql = '' CAST (?? AS CHAR (255))=?'' \<and> length bindings = 2 \<and>
          map_of row (bindings ! 0) = Some (bindings ! 1))"

section \<open>Properties\<close>

lemma filter_switch_append:
  "filter_switch b f = b @ filter_switch [] f"
  by (simp add: filter_switch_def andWhere_def andWhereNot_def split: FilterCriteriaEnum.split)

subsection \<open>The where-chain\<close>

lemma chain_holds_and:
  "list_all (\<lambda>c. joiner c = And) cs \<Longrightarrow> chain_holds lit acc cs = (acc \<and> list_all lit cs)"
  by (induction cs arbitrary: acc) auto

lemma chain_holds_or_prefix:
  "list_all (\<lambda>c. joiner c = Or) os \<Longrightarrow> os \<noteq> [] \<Longrightarrow>
   chain_holds lit acc (os @ cs) =
     (acc \<or> list_ex lit (butlast os) \<or> chain_holds lit (lit (last os)) cs)"
proof (induction os arbitrary: acc)
  case Nil
  then show ?case by simp
next
  case (Cons c os)
  show ?case
  proof (cases "os = []")
    case True
    with Cons.prems show ?thesis by simp
  next
    case False
    with Cons.prems have "chain_holds lit (lit c) (os @ cs) =
        (lit c \<or> list_ex lit (butlast os) \<or> chain_holds lit (lit (last os)) cs)"
      using Cons.IH [of "lit c"] by simp
    with Cons.prems False show ?thesis by auto
  qed
qed

lemma foldl_filter_switch_concat:
  "foldl filter_switch b fs = b @ concat (map (filter_switch []) fs)"
proof (induction fs arbitrary: b)
  case Nil
  show ?case by simp
next
  case (Cons f fs)
  have "foldl filter_switch b (f # fs) = foldl filter_switch (filter_switch b f) fs"
    by simp
  also have "\<dots> = filter_switch b f @ concat (map (filter_switch []) fs)"
    by (rule Cons.IH)
  also have "\<dots> = b @ concat (map (filter_switch []) (f # fs))"
    using filter_switch_append [of b f] by simp
  finally show ?case .
qed

lemma filters_modifier_concat:
  "filters_modifier ff b = b @ concat (map (filter_switch []) (case ff of None \<Rightarrow> [] | Some fs \<Rightarrow> fs))"
  by (cases ff) (simp_all add: filters_modifier_def foldl_filter_switch_concat)

lemma filter_switch_joiner:
  "list_all (\<lambda>c. joiner c = And) (filter_switch [] f)"
  by (simp add: filter_switch_def andWhere_def andWhereNot_def split: FilterCriteriaEnum.split)

lemma filters_modifier_joiner:
  "list_all (\<lambda>c. joiner c = And) (filters_modifier ff [])"
  by (cases ff) (auto simp: filters_modifier_concat list_all_iff dest: filter_switch_joiner [unfolded list_all_iff, rule_format])

lemma foldl_orWhereRaw:
  "foldl (\<lambda>b f. orWhereRaw b sql [f, t]) b sf = b @ map (\<lambda>f. Where Or False (Raw sql [f, t])) sf"
  by (induction sf arbitrary: b) (simp_all add: orWhereRaw_def)

lemma search_modifier_append:
  "search_modifier settings t b = b @ search_modifier settings t []"
  by (simp add: search_modifier_def foldl_orWhereRaw split: option.split)

lemma search_modifier_joiner:
  "list_all (\<lambda>c. joiner c = Or) (search_modifier settings t [])"
  by (auto simp: search_modifier_def foldl_orWhereRaw list_all_iff split: option.split)


lemma search_modifier_active:
  "search_fields settings = Some sf \<Longrightarrow> sf \<noteq> [] \<Longrightarrow> t \<noteq> [] \<Longrightarrow>
   search_modifier settings (Some t) [] = map (\<lambda>f. Where Or False (Raw '' CAST (?? AS CHAR (255))=?'' [f, t])) sf"
  by (simp add: search_modifier_def foldl_orWhereRaw truthy_str_def)

lemma rows_wheres_split:
  "rows_wheres settings t ff = search_modifier settings t [] @ filters_modifier ff []"
  unfolding rows_wheres_def using filters_modifier_concat [of ff "search_modifier settings t []"]
    filters_modifier_concat [of ff "[]"] by simp

lemma count_wheres_split:
  "count_wheres ff settings t = filters_modifier ff [] @ search_modifier settings t []"
  unfolding count_wheres_def using search_modifier_append [of settings t "filters_modifier ff []"] by simp

lemma where_holds_or_then_and:
  assumes "list_all (\<lambda>c. joiner c = Or) os" and "os \<noteq> []" and "list_all (\<lambda>c. joiner c = And) as"
  shows "where_holds lit (os @ as) = (list_ex lit (butlast os) \<or> (lit (last os) \<and> list_all lit as))"
proof (cases os)
  case Nil
  with assms show ?thesis by simp
next
  case (Cons c cs)
  show ?thesis
  proof (cases "cs = []")
    case True
    with Cons assms show ?thesis by (simp add: chain_holds_and)
  next
    case False
    from assms Cons have "list_all (\<lambda>c. joiner c = Or) cs" by simp
    then have "chain_holds lit (lit c) (cs @ as) =
        (lit c \<or> list_ex lit (butlast cs) \<or> chain_holds lit (lit (last cs)) as)"
      using False by (rule chain_holds_or_prefix)
    with Cons False assms show ?thesis by (auto simp: chain_holds_and)
  qed
qed

lemma chain_holds_or:
  "list_all (\<lambda>c. joiner c = Or) os \<Longrightarrow> chain_holds lit acc os = (acc \<or> list_ex lit os)"
  by (induction os arbitrary: acc) auto

lemma chain_holds_and_then_or:
  "list_all (\<lambda>c. joiner c = And) as \<Longrightarrow> list_all (\<lambda>c. joiner c = Or) os \<Longrightarrow>
   chain_holds lit acc (as @ os) = ((acc \<and> list_all lit as) \<or> list_ex lit os)"
  by (induction as arbitrary: acc) (auto simp: chain_holds_or)




subsection \<open>Filters\<close>




subsection \<open>Free-text search\<close>

lemma list_ex_butlast_last:
  "xs \<noteq> [] \<Longrightarrow> list_ex P xs = (list_ex P (butlast xs) \<or> P (last xs))"
  by (induction xs) auto

text \<open>
  What the two flat chains select, by the precedence of AND over OR. In the data select the
  filters join the last search comparison; in the count the search comparisons are
  alternatives to the whole of the filters.
\<close>

lemma rows_wheres_precedence:
  fixes lit :: "'v where_clause \<Rightarrow> bool"
  assumes "search_fields settings = Some sf" and "sf \<noteq> []" and "t \<noteq> []"
  shows "where_holds lit (rows_wheres settings (Some t) filteringFields) =
           (list_ex lit (butlast (search_modifier settings (Some t) [])) \<or>
            (lit (last (search_modifier settings (Some t) [])) \<and>
             list_all lit (filters_modifier filteringFields [])))"
proof -
  have "search_modifier settings (Some t) ([] :: 'v where_clause list) =
      map (\<lambda>f. Where Or False (Raw '' CAST (?? AS CHAR (255))=?'' [f, t])) sf"
    using assms by (rule search_modifier_active)
  with assms(2) have ne: "search_modifier settings (Some t) ([] :: 'v where_clause list) \<noteq> []"
    by simp
  show ?thesis
    unfolding rows_wheres_split
    using search_modifier_joiner ne filters_modifier_joiner by (rule where_holds_or_then_and)
qed

lemma count_wheres_precedence:
  fixes lit :: "'v where_clause \<Rightarrow> bool"
  shows "where_holds lit (count_wheres filteringFields settings searchedFieldValue) =
     (if filters_modifier filteringFields [] = []
      then search_modifier settings searchedFieldValue ([] :: 'v where_clause list) = [] \<or>
           list_ex lit (search_modifier settings searchedFieldValue [])
      else list_all lit (filters_modifier filteringFields []) \<or>
           list_ex lit (search_modifier settings searchedFieldValue []))"
proof (cases "filters_modifier filteringFields ([] :: 'v where_clause list)")
  case Nil
  show ?thesis
  proof (cases "search_modifier settings searchedFieldValue ([] :: 'v where_clause list)")
    case Nil': Nil
    with Nil show ?thesis by (simp add: count_wheres_split)
  next
    case (Cons c cs)
    have "list_all (\<lambda>c. joiner c = Or) (c # cs)"
      unfolding Cons [symmetric] by (rule search_modifier_joiner)
    then have "list_all (\<lambda>c. joiner c = Or) cs" by simp
    then have "chain_holds lit (lit c) cs = (lit c \<or> list_ex lit cs)"
      by (rule chain_holds_or)
    with Nil Cons show ?thesis by (simp add: count_wheres_split)
  qed
next
  case (Cons c cs)
  have "list_all (\<lambda>c. joiner c = And) (c # cs)"
    unfolding Cons [symmetric] by (rule filters_modifier_joiner)
  then have "list_all (\<lambda>c. joiner c = And) cs" by simp
  then have "chain_holds lit (lit c) (cs @ search_modifier settings searchedFieldValue []) =
      ((lit c \<and> list_all lit cs) \<or> list_ex lit (search_modifier settings searchedFieldValue []))"
    using search_modifier_joiner by (rule chain_holds_and_then_or)
  with Cons show ?thesis by (simp add: count_wheres_split)
qed

text \<open>
  Claim C5 at a failing input. The settings have the search fields \<open>a\<close> and \<open>b\<close>, the call
  searches \<open>x\<close> and filters with \<open>c eq 1\<close>, and the table has the single row
  \<open>{a: x, b: y, c: 2}\<close>. The select that \<open>getRowsFromTable\<close> builds has the flat chain
  \<open>CAST(a)=x OR CAST(b)=x AND c = 1\<close>, with no parentheses around the two search
  comparisons. Since AND binds tighter than OR the row is selected (and counted), though it
  fails the filter: the search disjunction is not one conjunct beside the filters, as the
  claim has it.
\<close>

theorem search_not_grouped:
  "map_sum id
     (\<lambda>r. (wheres (data r),
           matching [[(''a'', ''x''), (''b'', ''y''), (''c'', ''2'')]] eq_lit (wheres (data r)),
           map_option total (pagination r)))
     (fst (getRowsFromTable consts
        \<lparr>tunnel_up = True, columns_answer = Inr [], primary_answer = Inr [],
         insert_answer = (\<lambda>row :: (string \<times> unit) list. None), last_insert_id_answer = Inr [],
         update_answer = (\<lambda>row. Inl TypeError)\<rparr>
        [[(''a'', ''x''), (''b'', ''y''), (''c'', ''2'')]] eq_lit
        \<lparr>list_fields = Some 0, excluded_fields = None, search_fields = Some [''a'', ''b''],
         ordering_field = None, ordering = None, list_per_page = None\<rparr>
        (Some 1) (Some 10) (Some ''x'')
        (Some [\<lparr>field = ''c'', criteria = Eq, fvalue = ''1''\<rparr>])
        None [[''a'', ''b'', ''c'']]))
   = Inr ([Where Or False (Raw '' CAST (?? AS CHAR (255))=?'' [''a'', ''x'']),
           Where Or False (Raw '' CAST (?? AS CHAR (255))=?'' [''b'', ''x'']),
           Where And False (Basic ''c'' ''='' (Template [] ''1'' []))],
          [[(''a'', ''x''), (''b'', ''y''), (''c'', ''2'')]],
          Some 1)
   \<and> \<not> spec_search_and_filters (eq_lit [(''a'', ''x''), (''b'', ''y''), (''c'', ''2'')])
        \<lparr>list_fields = Some 0, excluded_fields = None, search_fields = Some [''a'', ''b''],
         ordering_field = None, ordering = None, list_per_page = None\<rparr>
        (Some ''x'')
        (Some [\<lparr>field = ''c'', criteria = Eq, fvalue = ''1''\<rparr>])"
  by (simp add: getRowsFromTable_def findAvaliableFields_def isObjectEmpty_def deref_def
      autocomplete_requested_def getRowsCount_def matching_def count_wheres_def rows_wheres_def
      spec_search_and_filters_def search_modifier_def filters_modifier_def filter_switch_def
      andWhere_def orWhereRaw_def eq_lit_def truthy_str_def resolve_pagination_def
      page_offset_def offset_rejected_def truthy_num_def num_le0_def Let_def)

text \<open>
  With exactly one search field, or with no filter, the flat chain of the select does agree
  with the conjunction of the search disjunction and the filters.
\<close>

lemma search_then_filters_flat:
  assumes "search_fields settings = Some sf" and "sf \<noteq> []" and "t \<noteq> []"
  shows "rows_wheres settings (Some t) filteringFields =
           map (\<lambda>f. Where Or False (Raw '' CAST (?? AS CHAR (255))=?'' [f, t])) sf @
           filters_modifier filteringFields []
       \<and> ((length sf = 1 \<or> filters_modifier filteringFields [] = []) \<longrightarrow>
            where_holds lit (rows_wheres settings (Some t) filteringFields) =
              spec_search_and_filters lit settings (Some t) filteringFields)"
proof -
  let ?S = "search_modifier settings (Some t) []"
  let ?F = "filters_modifier filteringFields []"
  have S: "?S = map (\<lambda>f. Where Or False (Raw '' CAST (?? AS CHAR (255))=?'' [f, t])) sf"
    using assms by (rule search_modifier_active)
  from assms(2) have ne: "?S \<noteq> []" unfolding S by simp
  have chain: "rows_wheres settings (Some t) filteringFields = ?S @ ?F"
    by (rule rows_wheres_split)
  have sem: "where_holds lit (?S @ ?F) =
      (list_ex lit (butlast ?S) \<or> (lit (last ?S) \<and> list_all lit ?F))"
    using rows_wheres_precedence [OF assms, of lit filteringFields] chain by simp
  have one: "where_holds lit (?S @ ?F) = spec_search_and_filters lit settings (Some t) filteringFields"
    if "length sf = 1 \<or> ?F = []"
  proof -
    from that consider "length sf = 1" | "?F = []" by blast
    then show ?thesis
    proof cases
      case 1
      then obtain f where sf: "sf = [f]" by (cases sf) auto
      have nb: "\<not> list_ex lit (butlast ?S)" unfolding S sf by simp
      have ex: "list_ex lit ?S = lit (last ?S)"
        using list_ex_butlast_last [OF ne, of lit] nb by blast
      show ?thesis unfolding spec_search_and_filters_def using sem nb ex by blast
    next
      case 2
      have "list_all lit ?F" using 2 by simp
      then show ?thesis unfolding spec_search_and_filters_def
        using sem list_ex_butlast_last [OF ne, of lit] by blast
    qed
  qed
  from S chain one show ?thesis by simp
qed

subsection \<open>The total of the pagination\<close>

text \<open>
  Claim C2 at a failing input. The table has the single row \<open>{a: 2, b: x}\<close>; the call
  filters with \<open>a eq 1\<close> and searches \<open>x\<close> in the field \<open>b\<close>. \<open>getRowsCount\<close> builds
  \<open>a = 1 OR CAST(b)=x\<close> and counts the row, the data select builds
  \<open>CAST(b)=x AND a = 1\<close> and selects no row: the pagination reports the total 1 for a
  select whose predicate no row satisfies.
\<close>

theorem total_counts_other_rows:
  "map_sum id
     (\<lambda>r. (map_option total (pagination r),
           matching [[(''a'', ''2''), (''b'', ''x'')]] eq_lit (wheres (data r))))
     (fst (getRowsFromTable consts
        \<lparr>tunnel_up = True, columns_answer = Inr [], primary_answer = Inr [],
         insert_answer = (\<lambda>row :: (string \<times> unit) list. None), last_insert_id_answer = Inr [],
         update_answer = (\<lambda>row. Inl TypeError)\<rparr>
        [[(''a'', ''2''), (''b'', ''x'')]] eq_lit
        \<lparr>list_fields = Some 0, excluded_fields = None, search_fields = Some [''b''],
         ordering_field = None, ordering = None, list_per_page = None\<rparr>
        (Some 1) (Some 10) (Some ''x'')
        (Some [\<lparr>field = ''a'', criteria = Eq, fvalue = ''1''\<rparr>])
        None [[''a'', ''b'']]))
   = Inr (Some 1, [])"
  by (simp add: getRowsFromTable_def findAvaliableFields_def isObjectEmpty_def deref_def
      autocomplete_requested_def getRowsCount_def matching_def count_wheres_def rows_wheres_def
      search_modifier_def filters_modifier_def filter_switch_def andWhere_def orWhereRaw_def
      eq_lit_def truthy_str_def resolve_pagination_def page_offset_def offset_rejected_def
      truthy_num_def num_le0_def Let_def)

subsection \<open>Page and page size\<close>





subsection \<open>Ordering\<close>

text \<open>
  Claim C4 at a failing input. The condition \<open>(settings.ordering_field, settings.ordering)\<close>
  is a comma expression and has the value of \<open>settings.ordering\<close> alone, so the ordering is
  applied exactly when \<open>ordering\<close> is present. With settings that hold \<open>ordering = ASC\<close> and
  no \<open>ordering_field\<close> the select gets \<open>orderBy(undefined, ASC)\<close>, where the claim has no
  ordering clause.
\<close>

theorem ordering_without_field:
  "order_modifier settings =
     (if truthy_str (ordering settings) then Some (ordering_field settings, ordering settings)
      else None)
   \<and> map_sum id (\<lambda>r. orderBy (data r))
       (fst (getRowsFromTable consts
          \<lparr>tunnel_up = True, columns_answer = Inr [], primary_answer = Inr [],
           insert_answer = (\<lambda>row :: (string \<times> unit) list. None), last_insert_id_answer = Inr [],
           update_answer = (\<lambda>row. Inl TypeError)\<rparr>
          [] eq_lit
          \<lparr>list_fields = None, excluded_fields = None, search_fields = None,
           ordering_field = None, ordering = Some ''ASC'', list_per_page = None\<rparr>
          (Some 1) (Some 10) None None None []))
     = Inr (Some (None, Some ''ASC''))"
  by (simp add: getRowsFromTable_def findAvaliableFields_def isObjectEmpty_def
      getTableStructure_def autocomplete_requested_def order_modifier_def comma_def
      truthy_str_def resolve_pagination_def page_offset_def offset_rejected_def
      truthy_num_def num_le0_def Let_def)

subsection \<open>Inserting a row\<close>

text \<open>
  Claim C6 at a failing input. On a table without a primary key \<open>primaryColumns\<close> is empty
  and \<open>primaryKey\<close> is \<open>undefined\<close>; line 54 reads \<open>primaryKey.column_name\<close> before the
  test \<open>primaryColumns?.length > 0\<close> of line 70, so \<open>addRowInTable\<close> raises a TypeError and
  never reaches the insert of line 94. The claim has the insert done and nothing raised.
\<close>

theorem addRow_without_primary_key:
  assumes "getTableStructure srv = Inr tableStructure"
    and "getTablePrimaryColumns srv = Inr []"
  shows "fst (addRowInTable stringify checkFieldAutoincrement srv store row) = Inl TypeError"
  using assms by (simp add: addRowInTable_def Let_def)

theorem addRow_without_primary_key_witness:
  "fst (addRowInTable (\<lambda>v. ''json:'' @ v) (\<lambda>d. d = Some ''auto_increment'')
     \<lparr>tunnel_up = True,
      columns_answer = Inr [\<lparr>COLUMN_NAME = ''note'', COLUMN_DEFAULT = None, DATA_TYPE = ''text'',
        COLUMN_TYPE = ''text'', IS_NULLABLE = ''YES'', EXTRA = '''',
        CHARACTER_MAXIMUM_LENGTH = Some 65535\<rparr>],
      primary_answer = Inr [],
      insert_answer = (\<lambda>row. None), last_insert_id_answer = Inr [],
      update_answer = (\<lambda>row. Inl TypeError)\<rparr>
     [[(''note'', ''hello'')]] 0) = Inl TypeError"
proof -
  let ?srv = "\<lparr>tunnel_up = True,
      columns_answer = Inr [\<lparr>COLUMN_NAME = ''note'', COLUMN_DEFAULT = None, DATA_TYPE = ''text'',
        COLUMN_TYPE = ''text'', IS_NULLABLE = ''YES'', EXTRA = '''',
        CHARACTER_MAXIMUM_LENGTH = Some 65535\<rparr>],
      primary_answer = Inr [],
      insert_answer = (\<lambda>row :: (string \<times> string) list. None), last_insert_id_answer = Inr [],
      update_answer = (\<lambda>row. Inl TypeError)\<rparr>"
  have h1: "getTableStructure ?srv =
      Inr (map normalize_element [\<lparr>COLUMN_NAME = ''note'', COLUMN_DEFAULT = None,
        DATA_TYPE = ''text'', COLUMN_TYPE = ''text'', IS_NULLABLE = ''YES'', EXTRA = '''',
        CHARACTER_MAXIMUM_LENGTH = Some 65535\<rparr>])"
    by (simp add: getTableStructure_def)
  have h2: "getTablePrimaryColumns ?srv = Inr []"
    by (simp add: getTablePrimaryColumns_def)
  show ?thesis
    by (rule addRow_without_primary_key [OF h1 h2])
qed

text \<open>
  The two other cases of claim C6 hold: with a primary key that is not auto-increment the
  result carries the value the caller supplied for the key, and with an auto-increment
  primary key it carries the last generated id.
\<close>

lemma addRow_supplied_key:
  assumes "getTableStructure srv = Inr tableStructure"
    and "getTablePrimaryColumns srv = Inr (primaryKey # others)"
    and "indexOf (map column_name tableStructure) primaryKey = k" and "0 \<le> k"
    and "\<not> checkFieldAutoincrement (column_default (tableStructure ! nat k))"
    and "insert_answer srv (stringify_json_columns stringify tableStructure (deref store row)) = None"
    and "row < length store"
  shows "fst (addRowInTable stringify checkFieldAutoincrement srv store row) =
         Inr (KeyValue primaryKey
               (map_of (stringify_json_columns stringify tableStructure (deref store row)) primaryKey))"
proof -
  from assms(1) have "tunnel_up srv"
    by (auto simp: getTableStructure_def split: if_splits)
  with assms show ?thesis
    by (simp add: addRowInTable_def Let_def deref_def)
qed

lemma addRow_auto_increment:
  assumes "getTableStructure srv = Inr tableStructure"
    and "getTablePrimaryColumns srv = Inr (primaryKey # others)"
    and "indexOf (map column_name tableStructure) primaryKey = k" and "0 \<le> k"
    and "checkFieldAutoincrement (column_default (tableStructure ! nat k))"
    and "insert_answer srv (stringify_json_columns stringify tableStructure (deref store row)) = None"
    and "last_insert_id_answer srv = Inr (generated # rest)"
    and "row < length store"
  shows "fst (addRowInTable stringify checkFieldAutoincrement srv store row) =
         Inr (KeyValue primaryKey (Some generated))"
proof -
  from assms(1) have "tunnel_up srv"
    by (auto simp: getTableStructure_def split: if_splits)
  with assms show ?thesis
    by (simp add: addRowInTable_def Let_def deref_def)
qed

subsection \<open>The cached driver\<close>

text \<open>
  Claim C7 at a failing input. \<open>configureKnex\<close> looks the query builder up with
  \<open>Cacher.getCachedKnex\<close> but stores the new one with \<open>Cacher.setDriverCache\<close>, the cache
  that \<open>getMySqlDriver\<close> reads. For a descriptor with nothing cached yet, after
  \<open>getMySqlDriver\<close> has cached the tunnelled driver, \<open>configureKnex\<close> for the same descriptor
  puts the query builder in its place, and the next \<open>getMySqlDriver\<close> returns the query
  builder, whatever port it is offered. \<open>testConnect\<close> alone, which passes one descriptor to
  both, leaves the cache in that state.
\<close>

theorem knex_replaces_cached_driver:
  assumes "getDriverCache cache connection = None"
    and "getCachedKnex cache connection = None"
    and "getSshMySqlClient connection freePort = Inr driver"
  shows "fst (getMySqlDriver getSshMySqlClient freePort cache connection) = Inr driver
       \<and> fst (getMySqlDriver getSshMySqlClient nextPort
            (snd (configureKnex
               (snd (getMySqlDriver getSshMySqlClient freePort cache connection)) connection))
            connection)
         = Inr (KnexInstance (host connection) (username connection) (password connection)
             (database connection) (port connection)
             (if ssl connection then Ca (cert connection) else RejectUnauthorized False))
       \<and> fst (getMySqlDriver getSshMySqlClient nextPort
            (snd (testConnect getSshMySqlClient freePort probe cache connection)) connection)
         = Inr (KnexInstance (host connection) (username connection) (password connection)
             (database connection) (port connection)
             (if ssl connection then Ca (cert connection) else RejectUnauthorized False))"
  using assms
  by (simp add: getMySqlDriver_def configureKnex_def testConnect_def getDriverCache_def
      getCachedKnex_def setDriverCache_def Let_def split: sum.split)

theorem knex_replaces_cached_driver_witness:
  "fst (getMySqlDriver
     (\<lambda>c p. Inr (SshMySqlClient c p)) 3307
     (snd (configureKnex
        (snd (getMySqlDriver (\<lambda>c p. Inr (SshMySqlClient c p)) 3306
           \<lparr>driverCache = Map.empty, knexCache = Map.empty\<rparr>
           \<lparr>host = ''db'', username = ''u'', password = ''p'', database = ''d'', port = 3306,
            conn_type = ''mysql'', ssl = False, cert = ''''\<rparr>))
        \<lparr>host = ''db'', username = ''u'', password = ''p'', database = ''d'', port = 3306,
         conn_type = ''mysql'', ssl = False, cert = ''''\<rparr>))
     \<lparr>host = ''db'', username = ''u'', password = ''p'', database = ''d'', port = 3306,
      conn_type = ''mysql'', ssl = False, cert = ''''\<rparr>)
   = Inr (KnexInstance ''db'' ''u'' ''p'' ''d'' 3306 (RejectUnauthorized False))"
proof -
  let ?connection = "\<lparr>host = ''db'', username = ''u'', password = ''p'', database = ''d'',
      port = 3306, conn_type = ''mysql'', ssl = False, cert = ''''\<rparr>"
  let ?cache = "\<lparr>driverCache = Map.empty, knexCache = Map.empty\<rparr>"
  have h1: "getDriverCache ?cache ?connection = None"
    by (simp add: getDriverCache_def)
  have h2: "getCachedKnex ?cache ?connection = None"
    by (simp add: getCachedKnex_def)
  show ?thesis
    using knex_replaces_cached_driver [where cache = "?cache" and connection = "?connection"
        and getSshMySqlClient = "\<lambda>c p. Inr (SshMySqlClient c p)" and freePort = 3306
        and driver = "SshMySqlClient ?connection 3306" and nextPort = 3307
        and probe = "\<lambda>k d. Inr True"] h1 h2
    by simp
qed

subsection \<open>The settings of the caller\<close>

text \<open>
  Claim C9 at a failing input. With \<open>list_fields = [a, b, c]\<close> and
  \<open>excluded_fields = [b]\<close>, \<open>findAvaliableFields\<close> takes the array of \<open>settings.list_fields\<close>
  itself as its array of available fields and splices the excluded field out of it: after
  the call, and after a call to \<open>getRowsFromTable\<close> or to \<open>getRowByPrimaryKey\<close>, the caller's
  \<open>settings.list_fields\<close> is \<open>[a, c]\<close>.
\<close>

theorem settings_list_fields_edited:
  "deref (snd (findAvaliableFields
       \<lparr>tunnel_up = True, columns_answer = Inr [], primary_answer = Inr [],
        insert_answer = (\<lambda>row :: (string \<times> unit) list. None), last_insert_id_answer = Inr [],
        update_answer = (\<lambda>row. Inl TypeError)\<rparr>
       \<lparr>list_fields = Some 0, excluded_fields = Some 1, search_fields = None,
        ordering_field = None, ordering = None, list_per_page = None\<rparr>
       [[''a'', ''b'', ''c''], [''b'']])) 0 = [''a'', ''c'']
   \<and> deref (snd (getRowsFromTable consts
       \<lparr>tunnel_up = True, columns_answer = Inr [], primary_answer = Inr [],
        insert_answer = (\<lambda>row :: (string \<times> unit) list. None), last_insert_id_answer = Inr [],
        update_answer = (\<lambda>row. Inl TypeError)\<rparr>
       [] eq_lit
       \<lparr>list_fields = Some 0, excluded_fields = Some 1, search_fields = None,
        ordering_field = None, ordering = None, list_per_page = None\<rparr>
       (Some 1) (Some 10) None None None
       [[''a'', ''b'', ''c''], [''b'']])) 0 = [''a'', ''c'']
   \<and> deref (snd (getRowByPrimaryKey
       \<lparr>tunnel_up = True, columns_answer = Inr [], primary_answer = Inr [],
        insert_answer = (\<lambda>row :: (string \<times> unit) list. None), last_insert_id_answer = Inr [],
        update_answer = (\<lambda>row. Inl TypeError)\<rparr>
       [(''id'', ''1'')]
       (Some \<lparr>list_fields = Some 0, excluded_fields = Some 1, search_fields = None,
        ordering_field = None, ordering = None, list_per_page = None\<rparr>)
       [[''a'', ''b'', ''c''], [''b'']])) 0 = [''a'', ''c'']"
  by (simp add: getRowsFromTable_def getRowByPrimaryKey_def findAvaliableFields_def
      isObjectEmpty_def deref_def autocomplete_requested_def splice1_def exclude_loop.simps
      resolve_pagination_def page_offset_def offset_rejected_def truthy_num_def num_le0_def
      Let_def)

text \<open>
  The sibling path does not do so: the loop edits the array of available fields only, and
  when the settings have no \<open>list_fields\<close> that array is a new one, so every array the
  caller holds is as it was.
\<close>

lemma exclude_loop_frame:
  "length (exclude_loop store e a i) = length store \<and>
   (\<forall>r. r \<noteq> a \<longrightarrow> exclude_loop store e a i ! r = store ! r)"
proof (induction store e a i rule: exclude_loop.induct)
  case (1 store e a i)
  note unfold = exclude_loop.simps [of store e a i]
  show ?case
  proof (cases "i < length (deref store e)")
    case False
    then show ?thesis by (simp add: unfold)
  next
    case True
    show ?thesis
    proof (cases "indexOf (deref store a) (deref store e ! i) \<ge> 0")
      case found: True
      from "1.IH"(1) [OF True refl refl found] True found show ?thesis
        by (simp add: unfold)
    next
      case notfound: False
      from "1.IH"(2) [OF True refl refl notfound] True notfound show ?thesis
        by (simp add: unfold)
    qed
  qed
qed

lemma findAvaliableFields_fresh_array:
  assumes "list_fields settings = None" and "r < length store"
  shows "snd (findAvaliableFields srv settings store) ! r = store ! r"
proof -
  have fresh: "exclude_loop (store @ [xs]) e (length store) 0 ! r = store ! r" for xs e
    using assms(2) exclude_loop_frame [of "store @ [xs]" e "length store" 0]
    by (simp add: nth_append)
  from assms show ?thesis
    by (auto simp: findAvaliableFields_def Let_def fresh nth_append split: sum.split)
qed

subsection \<open>The row of the caller\<close>

lemma toLowerCase_json: "toLowerCase ''json'' = ''json''"
  by (simp add: toLowerCase_def)

lemma addRowInTable_store:
  "getTableStructure srv = Inr tableStructure \<Longrightarrow>
   snd (addRowInTable stringify checkFieldAutoincrement srv store row) =
     store[row := stringify_json_columns stringify tableStructure (deref store row)]"
  by (simp add: addRowInTable_def Let_def split: sum.split list.split option.split)

lemma updateRowInTable_store:
  "getTableStructure srv = Inr tableStructure \<Longrightarrow>
   snd (updateRowInTable stringify srv store row) =
     store[row := stringify_json_columns stringify tableStructure (deref store row)]"
  by (simp add: updateRowInTable_def Let_def)

lemma stringify_json_columns_keys:
  "map fst (stringify_json_columns stringify tableStructure row) = map fst row"
  by (induction row) (auto simp: stringify_json_columns_def Let_def)

lemma stringify_json_columns_nth:
  assumes "i < length row" and "c \<in> set tableStructure" and "data_type c = ''json''"
    and "column_name c = fst (row ! i)"
  shows "stringify_json_columns stringify tableStructure row ! i =
         (fst (row ! i), stringify (snd (row ! i)))"
proof -
  from assms(2,3,4) have "fst (row ! i) \<in> set (map column_name
      (filter (\<lambda>structEl. toLowerCase (data_type structEl) = ''json'') tableStructure))"
    using toLowerCase_json by force
  with assms(1) show ?thesis
    by (simp add: stringify_json_columns_def Let_def case_prod_beta)
qed

lemma addRowInTable_with_primary_key:
  assumes "getTableStructure srv = Inr tableStructure"
    and "getTablePrimaryColumns srv = Inr (primaryKey # others)"
    and "0 \<le> indexOf (map column_name tableStructure) primaryKey"
  shows "fst (addRowInTable stringify checkFieldAutoincrement srv store row) =
     (case insert_answer srv
             (deref (store[row := stringify_json_columns stringify tableStructure (deref store row)])
                row) of
        Some e \<Rightarrow> Inl (WrappedError e)
      | None \<Rightarrow>
          if \<not> checkFieldAutoincrement
                 (column_default
                    (tableStructure ! nat (indexOf (map column_name tableStructure) primaryKey)))
          then Inr (KeyValue primaryKey
                 (map_of
                    (deref (store[row := stringify_json_columns stringify tableStructure
                                    (deref store row)]) row)
                    primaryKey))
          else (case last_insert_id_answer srv of
                  Inl e \<Rightarrow> Inl (WrappedError e)
                | Inr ids \<Rightarrow>
                    (case ids of
                       [] \<Rightarrow> Inl (WrappedError TypeError)
                     | generated # _ \<Rightarrow> Inr (KeyValue primaryKey (Some generated)))))"
proof -
  from assms(1) have "tunnel_up srv"
    by (auto simp: getTableStructure_def split: if_splits)
  with assms show ?thesis
    by (simp add: addRowInTable_def Let_def split: option.split sum.split list.split)
qed

text \<open>
  Claim C10. \<open>addRowInTable\<close> and \<open>updateRowInTable\<close> edit the row of the caller in place.
  Once the structure of the table has been read, every field of the row whose column has
  the \<open>data_type\<close> \<open>json\<close> holds, in the store that the call leaves behind and at the
  caller's own reference, the serialization of its former value, under the same key; the
  keys of the row are unchanged. This holds however the call ends. The edit comes before the
  statement: \<open>updateRowInTable\<close> returns the server's answer to the update with the edited
  row, and on a table with a primary key that the structure lists the outcome of
  \<open>addRowInTable\<close> is decided by the server's answer to the insert of the edited row (a
  refused insert is raised, an accepted one gives the key of the row).
\<close>

theorem json_fields_replaced_in_place:
  assumes "getTableStructure srv = Inr tableStructure"
    and "row < length store" and "i < length (store ! row)"
    and "c \<in> set tableStructure" and "data_type c = ''json''"
    and "column_name c = fst (store ! row ! i)"
  shows "snd (addRowInTable stringify checkFieldAutoincrement srv store row) ! row ! i =
           (fst (store ! row ! i), stringify (snd (store ! row ! i)))
       \<and> map fst (snd (addRowInTable stringify checkFieldAutoincrement srv store row) ! row) =
           map fst (store ! row)
       \<and> snd (updateRowInTable stringify srv store row) ! row ! i =
           (fst (store ! row ! i), stringify (snd (store ! row ! i)))
       \<and> map fst (snd (updateRowInTable stringify srv store row) ! row) = map fst (store ! row)
       \<and> fst (updateRowInTable stringify srv store row) =
           update_answer srv (snd (updateRowInTable stringify srv store row) ! row)
       \<and> (\<forall>primaryKey others.
            getTablePrimaryColumns srv = Inr (primaryKey # others) \<and>
            0 \<le> indexOf (map column_name tableStructure) primaryKey \<longrightarrow>
            fst (addRowInTable stringify checkFieldAutoincrement srv store row) =
              (case insert_answer srv
                      (snd (addRowInTable stringify checkFieldAutoincrement srv store row) ! row) of
                 Some e \<Rightarrow> Inl (WrappedError e)
               | None \<Rightarrow>
                   if \<not> checkFieldAutoincrement
                          (column_default
                             (tableStructure !
                                nat (indexOf (map column_name tableStructure) primaryKey)))
                   then Inr (KeyValue primaryKey
                          (map_of
                             (snd (addRowInTable stringify checkFieldAutoincrement srv store row) !
                                row)
                             primaryKey))
                   else (case last_insert_id_answer srv of
                           Inl e \<Rightarrow> Inl (WrappedError e)
                         | Inr ids \<Rightarrow>
                             (case ids of
                                [] \<Rightarrow> Inl (WrappedError TypeError)
                              | generated # _ \<Rightarrow> Inr (KeyValue primaryKey (Some generated))))))"
proof -
  let ?new = "stringify_json_columns stringify tableStructure (store ! row)"
  from assms(2) have d: "deref store row = store ! row" by (simp add: deref_def)
  have a: "snd (addRowInTable stringify checkFieldAutoincrement srv store row) ! row = ?new"
    using addRowInTable_store [OF assms(1)] assms(2) d by simp
  have u: "snd (updateRowInTable stringify srv store row) ! row = ?new"
    using updateRowInTable_store [OF assms(1)] assms(2) d by simp
  have n: "?new ! i = (fst (store ! row ! i), stringify (snd (store ! row ! i)))"
    using assms(3,4,5,6) by (rule stringify_json_columns_nth)
  have k: "map fst ?new = map fst (store ! row)"
    by (rule stringify_json_columns_keys)
  from assms(1) have up: "tunnel_up srv"
    by (auto simp: getTableStructure_def split: if_splits)
  have r: "fst (updateRowInTable stringify srv store row) = update_answer srv ?new"
    using assms(1,2) d up by (simp add: updateRowInTable_def Let_def deref_def)
  have sent: "deref (store[row := stringify_json_columns stringify tableStructure
      (deref store row)]) row = ?new"
    using assms(2) d by (simp add: deref_def)
  have ins: "fst (addRowInTable stringify checkFieldAutoincrement srv store row) =
      (case insert_answer srv ?new of
         Some e \<Rightarrow> Inl (WrappedError e)
       | None \<Rightarrow>
           if \<not> checkFieldAutoincrement
                  (column_default
                     (tableStructure ! nat (indexOf (map column_name tableStructure) primaryKey)))
           then Inr (KeyValue primaryKey (map_of ?new primaryKey))
           else (case last_insert_id_answer srv of
                   Inl e \<Rightarrow> Inl (WrappedError e)
                 | Inr ids \<Rightarrow>
                     (case ids of
                        [] \<Rightarrow> Inl (WrappedError TypeError)
                      | generated # _ \<Rightarrow> Inr (KeyValue primaryKey (Some generated)))))"
    if "getTablePrimaryColumns srv = Inr (primaryKey # others)"
      and "0 \<le> indexOf (map column_name tableStructure) primaryKey" for primaryKey others
    using addRowInTable_with_primary_key [OF assms(1) that, of stringify checkFieldAutoincrement
        store row]
    unfolding sent .
  from u n k r ins show ?thesis unfolding a by simp
qed

theorem json_fields_replaced_in_place_witness:
  "snd (addRowInTable (\<lambda>v. ''json:'' @ v) (\<lambda>d. d = Some ''auto_increment'')
      \<lparr>tunnel_up = True,
       columns_answer = Inr
         [\<lparr>COLUMN_NAME = ''id'', COLUMN_DEFAULT = None, DATA_TYPE = ''int'',
           COLUMN_TYPE = ''int(11)'', IS_NULLABLE = ''NO'', EXTRA = ''auto_increment'',
           CHARACTER_MAXIMUM_LENGTH = None\<rparr>,
          \<lparr>COLUMN_NAME = ''meta'', COLUMN_DEFAULT = None, DATA_TYPE = ''json'',
           COLUMN_TYPE = ''json'', IS_NULLABLE = ''YES'', EXTRA = [],
           CHARACTER_MAXIMUM_LENGTH = None\<rparr>],
       primary_answer = Inr [''id''],
       insert_answer =
         (\<lambda>row. if map_of row ''meta'' = Some ''json:{}'' then None
                else Some (DriverError ''Invalid JSON text'')),
       last_insert_id_answer = Inr [''8''],
       update_answer = (\<lambda>row. Inr ''1'')\<rparr>
      [[(''id'', ''7''), (''meta'', ''{}'')]] 0) ! 0 ! 1 = (''meta'', ''json:{}'')
   \<and> fst (addRowInTable (\<lambda>v. ''json:'' @ v) (\<lambda>d. d = Some ''auto_increment'')
      \<lparr>tunnel_up = True,
       columns_answer = Inr
         [\<lparr>COLUMN_NAME = ''id'', COLUMN_DEFAULT = None, DATA_TYPE = ''int'',
           COLUMN_TYPE = ''int(11)'', IS_NULLABLE = ''NO'', EXTRA = ''auto_increment'',
           CHARACTER_MAXIMUM_LENGTH = None\<rparr>,
          \<lparr>COLUMN_NAME = ''meta'', COLUMN_DEFAULT = None, DATA_TYPE = ''json'',
           COLUMN_TYPE = ''json'', IS_NULLABLE = ''YES'', EXTRA = [],
           CHARACTER_MAXIMUM_LENGTH = None\<rparr>],
       primary_answer = Inr [''id''],
       insert_answer =
         (\<lambda>row. if map_of row ''meta'' = Some ''json:{}'' then None
                else Some (DriverError ''Invalid JSON text'')),
       last_insert_id_answer = Inr [''8''],
       update_answer = (\<lambda>row. Inr ''1'')\<rparr>
      [[(''id'', ''7''), (''meta'', ''{}'')]] 0) = Inr (KeyValue ''id'' (Some ''8''))
   \<and> snd (updateRowInTable (\<lambda>v. ''json:'' @ v)
      \<lparr>tunnel_up = True,
       columns_answer = Inr
         [\<lparr>COLUMN_NAME = ''id'', COLUMN_DEFAULT = None, DATA_TYPE = ''int'',
           COLUMN_TYPE = ''int(11)'', IS_NULLABLE = ''NO'', EXTRA = ''auto_increment'',
           CHARACTER_MAXIMUM_LENGTH = None\<rparr>,
          \<lparr>COLUMN_NAME = ''meta'', COLUMN_DEFAULT = None, DATA_TYPE = ''json'',
           COLUMN_TYPE = ''json'', IS_NULLABLE = ''YES'', EXTRA = [],
           CHARACTER_MAXIMUM_LENGTH = None\<rparr>],
       primary_answer = Inr [''id''],
       insert_answer =
         (\<lambda>row. if map_of row ''meta'' = Some ''json:{}'' then None
                else Some (DriverError ''Invalid JSON text'')),
       last_insert_id_answer = Inr [''8''],
       update_answer = (\<lambda>row. Inr ''1'')\<rparr>
      [[(''id'', ''7''), (''meta'', ''{}'')]] 0) ! 0 ! 1 = (''meta'', ''json:{}'')"
proof -
  let ?id = "\<lparr>COLUMN_NAME = ''id'', COLUMN_DEFAULT = None, DATA_TYPE = ''int'',
      COLUMN_TYPE = ''int(11)'', IS_NULLABLE = ''NO'', EXTRA = ''auto_increment'',
      CHARACTER_MAXIMUM_LENGTH = None\<rparr>"
  let ?meta = "\<lparr>COLUMN_NAME = ''meta'', COLUMN_DEFAULT = None, DATA_TYPE = ''json'',
      COLUMN_TYPE = ''json'', IS_NULLABLE = ''YES'', EXTRA = [],
      CHARACTER_MAXIMUM_LENGTH = None\<rparr>"
  let ?srv = "\<lparr>tunnel_up = True, columns_answer = Inr [?id, ?meta],
      primary_answer = Inr [''id''],
      insert_answer =
        (\<lambda>row. if map_of row ''meta'' = Some ''json:{}'' then None
               else Some (DriverError ''Invalid JSON text'')),
      last_insert_id_answer = Inr [''8''],
      update_answer = (\<lambda>row. Inr ''1'')\<rparr>"
  let ?store = "[[(''id'', ''7''), (''meta'', ''{}'')]]"
  let ?structure = "[normalize_element ?id, normalize_element ?meta]"
  let ?stringify = "\<lambda>v. ''json:'' @ v"
  let ?auto = "\<lambda>d. d = Some ''auto_increment''"
  have h1: "getTableStructure ?srv = Inr ?structure"
    by (simp add: getTableStructure_def)
  have h2: "0 < length ?store" by simp
  have h3: "1 < length (?store ! 0)" by simp
  have h4: "normalize_element ?meta \<in> set ?structure" by simp
  have h5: "data_type (normalize_element ?meta) = ''json''"
    by (simp add: normalize_element_def Let_def)
  have h6: "column_name (normalize_element ?meta) = fst (?store ! 0 ! 1)"
    by (simp add: normalize_element_def Let_def)
  have h7: "getTablePrimaryColumns ?srv = Inr (''id'' # [])"
    by (simp add: getTablePrimaryColumns_def)
  have h8: "0 \<le> indexOf (map column_name ?structure) ''id''"
    by (simp add: normalize_element_def Let_def)
  note inst = json_fields_replaced_in_place [OF h1 h2 h3 h4 h5 h6, of ?stringify ?auto]
  have edited: "snd (addRowInTable ?stringify ?auto ?srv ?store 0) ! 0 ! 1 = (''meta'', ''json:{}'')"
    using inst [THEN conjunct1] by simp
  have updated: "snd (updateRowInTable ?stringify ?srv ?store 0) ! 0 ! 1 = (''meta'', ''json:{}'')"
    using inst [THEN conjunct2, THEN conjunct2, THEN conjunct1] by simp
  have row: "snd (addRowInTable ?stringify ?auto ?srv ?store 0) ! 0 =
      [(''id'', ''7''), (''meta'', ''json:{}'')]"
    using addRowInTable_store [OF h1, of ?stringify ?auto ?store 0]
    by (simp add: stringify_json_columns_def normalize_element_def toLowerCase_def deref_def
        Let_def)
  have names: "column_name (normalize_element ?id) = ''id''"
    "column_name (normalize_element ?meta) = ''meta''"
    by (simp_all add: normalize_element_def Let_def)
  have dflt: "column_default (normalize_element ?id) = Some ''auto_increment''"
    by (simp add: normalize_element_def Let_def)
  note sent = inst [THEN conjunct2, THEN conjunct2, THEN conjunct2, THEN conjunct2,
      THEN conjunct2, rule_format, OF conjI [OF h7 h8]]
  have "fst (addRowInTable ?stringify ?auto ?srv ?store 0) = Inr (KeyValue ''id'' (Some ''8''))"
    by (subst sent) (simp add: row names dflt)
  with edited updated show ?thesis by (simp only:)
qed

subsection \<open>The structure of a table\<close>

lemma split_from_no_quote:
  "CHR 0x27 \<notin> set v \<Longrightarrow>
   split_from quote_sep piece (v @ rest) = split_from quote_sep (rev v @ piece) rest"
proof (induction v arbitrary: piece)
  case Nil
  show ?case by simp
next
  case (Cons c v)
  then have "c \<noteq> CHR 0x27" by auto
  then have "take (length quote_sep) (c # v @ rest) \<noteq> quote_sep"
    by (auto simp: quote_sep_def)
  with Cons show ?case by simp
qed

lemma split_from_sep:
  "split_from quote_sep piece (quote_sep @ rest) = rev piece # split_from quote_sep [] rest"
  by (simp add: quote_sep_def)

lemma split_from_quote_join:
  "\<forall>v \<in> set (v0 # vs). CHR 0x27 \<notin> set v \<Longrightarrow>
   split_from quote_sep piece (quote_join (v0 # vs)) = (rev piece @ v0) # vs"
proof (induction vs arbitrary: v0 piece)
  case Nil
  then have "split_from quote_sep piece (v0 @ []) = split_from quote_sep (rev v0 @ piece) []"
    by (intro split_from_no_quote) simp
  then show ?case by simp
next
  case (Cons w vs)
  from Cons.prems have q: "CHR 0x27 \<notin> set v0" and rest: "\<forall>v \<in> set (w # vs). CHR 0x27 \<notin> set v"
    by simp_all
  have "split_from quote_sep piece (quote_join (v0 # w # vs)) =
      split_from quote_sep piece (v0 @ (quote_sep @ quote_join (w # vs)))"
    by simp
  also have "\<dots> = split_from quote_sep (rev v0 @ piece) (quote_sep @ quote_join (w # vs))"
    using q by (rule split_from_no_quote)
  also have "\<dots> = rev (rev v0 @ piece) # split_from quote_sep [] (quote_join (w # vs))"
    by (rule split_from_sep)
  also have "\<dots> = (rev piece @ v0) # w # vs"
    using Cons.IH [OF rest, of "[]"] by simp
  finally show ?case .
qed

lemma js_split_quote_join:
  assumes "vs \<noteq> []" and "\<forall>v \<in> set vs. CHR 0x27 \<notin> set v"
  shows "js_split (quote_join vs) quote_sep = vs"
proof -
  from assms(1) obtain v0 ws where vs: "vs = v0 # ws" by (cases vs) auto
  with assms(2) split_from_quote_join [of v0 ws "[]"] show ?thesis
    by (simp add: js_split_def) (simp add: quote_sep_def)
qed

lemma js_slice_value_list:
  "length keyword = k \<Longrightarrow>
   js_slice (value_list_type keyword vs) (int k + 2) (int (length (value_list_type keyword vs)) - 2) =
     quote_join vs"
proof -
  have n: "nat (int k + 2) = Suc (Suc k)" by simp
  assume "length keyword = k"
  then show ?thesis
    by (simp add: js_slice_def value_list_type_def Let_def n)
qed

lemma getNumbersFromString_varchar: "getNumbersFromString ''varchar(45)'' = Some 45"
  by (simp add: getNumbersFromString_def is_digit_def Let_def)

text \<open>
  Claim C8, as stated, fails in its last part. For a column of type \<open>int(0)\<close> with no
  length in the catalog the first run of digits is 0, and the claim has the maximum length 0;
  the code tests the number it has found for truthiness and stores null. The same test
  turns the length 0 that the catalog reports for a column \<open>char(0)\<close> into null.
\<close>

theorem max_length_zero_run_counterexample:
  "character_maximum_length
     (normalize_element
        \<lparr>COLUMN_NAME = ''n'', COLUMN_DEFAULT = None, DATA_TYPE = ''int'',
         COLUMN_TYPE = ''int(0)'', IS_NULLABLE = ''NO'', EXTRA = [],
         CHARACTER_MAXIMUM_LENGTH = None\<rparr>) = None
   \<and> spec_max_length
        \<lparr>COLUMN_NAME = ''n'', COLUMN_DEFAULT = None, DATA_TYPE = ''int'',
         COLUMN_TYPE = ''int(0)'', IS_NULLABLE = ''NO'', EXTRA = [],
         CHARACTER_MAXIMUM_LENGTH = None\<rparr> = Some 0
   \<and> character_maximum_length
     (normalize_element
        \<lparr>COLUMN_NAME = ''flag'', COLUMN_DEFAULT = None, DATA_TYPE = ''char'',
         COLUMN_TYPE = ''char(0)'', IS_NULLABLE = ''YES'', EXTRA = [],
         CHARACTER_MAXIMUM_LENGTH = Some 0\<rparr>) = None
   \<and> spec_max_length
        \<lparr>COLUMN_NAME = ''flag'', COLUMN_DEFAULT = None, DATA_TYPE = ''char'',
         COLUMN_TYPE = ''char(0)'', IS_NULLABLE = ''YES'', EXTRA = [],
         CHARACTER_MAXIMUM_LENGTH = Some 0\<rparr> = Some 0"
  by (simp add: normalize_element_def spec_max_length_def getNumbersFromString_def
      is_digit_def truthy_num_def Let_def)

text \<open>
  Claim C8, amended. For every catalog row \<open>getTableStructure\<close> normalizes: with the data
  type \<open>enum\<close> and a column type \<open>enum('a','b','c')\<close> (any non-empty list of values free of
  quotes) \<open>data_type_params\<close> is the list of the values, and likewise for \<open>set\<close>;
  \<open>extra = auto_increment\<close> rewrites \<open>column_default\<close> to \<open>auto_increment\<close>, and any other
  \<open>extra\<close> leaves it; \<open>allow_null\<close> is the boolean \<open>is_nullable = YES\<close>; a
  \<open>character_maximum_length\<close> of the catalog other than 0 is kept; when it is absent or 0,
  the maximum length is the first run of digits of the column type when that number is not
  0 (\<open>varchar(45)\<close> gives 45), and null when there is no digit or the number is 0.
\<close>

theorem structure_normalization:
  assumes "vs \<noteq> []" and "\<forall>v \<in> set vs. CHR 0x27 \<notin> set v"
  shows "(DATA_TYPE element = ''enum'' \<and> COLUMN_TYPE element = value_list_type ''enum'' vs \<longrightarrow>
            data_type_params (normalize_element element) = Some vs)
       \<and> (DATA_TYPE element = ''set'' \<and> COLUMN_TYPE element = value_list_type ''set'' vs \<longrightarrow>
            data_type_params (normalize_element element) = Some vs)
       \<and> column_default (normalize_element element) =
            (if EXTRA element = ''auto_increment'' then Some ''auto_increment''
             else COLUMN_DEFAULT element)
       \<and> allow_null (normalize_element element) = (IS_NULLABLE element = ''YES'')
       \<and> (CHARACTER_MAXIMUM_LENGTH element = None \<or> CHARACTER_MAXIMUM_LENGTH element = Some 0 \<longrightarrow>
            character_maximum_length (normalize_element element) =
              (if getNumbersFromString (COLUMN_TYPE element) = Some 0 then None
               else getNumbersFromString (COLUMN_TYPE element)))
       \<and> (\<forall>n. CHARACTER_MAXIMUM_LENGTH element = Some n \<and> n \<noteq> 0 \<longrightarrow>
            character_maximum_length (normalize_element element) = Some n)
       \<and> getNumbersFromString ''varchar(45)'' = Some 45"
proof -
  have split: "js_split (quote_join vs) [CHR 0x27, CHR '','', CHR 0x27] = vs"
    using js_split_quote_join [OF assms] by (simp add: quote_sep_def)
  have enum: "data_type_params (normalize_element element) = Some vs"
    if "DATA_TYPE element = ''enum''" and "COLUMN_TYPE element = value_list_type ''enum'' vs"
    using that js_slice_value_list [of "''enum''" 4 vs] split
    by (simp add: normalize_element_def Let_def)
  have set: "data_type_params (normalize_element element) = Some vs"
    if "DATA_TYPE element = ''set''" and "COLUMN_TYPE element = value_list_type ''set'' vs"
    using that js_slice_value_list [of "''set''" 3 vs] split
    by (simp add: normalize_element_def Let_def)
  have dflt: "column_default (normalize_element element) =
      (if EXTRA element = ''auto_increment'' then Some ''auto_increment''
       else COLUMN_DEFAULT element)"
    by (simp add: normalize_element_def Let_def)
  have null: "allow_null (normalize_element element) = (IS_NULLABLE element = ''YES'')"
    by (simp add: normalize_element_def Let_def)
  have len: "character_maximum_length (normalize_element element) =
      (if getNumbersFromString (COLUMN_TYPE element) = Some 0 then None
       else getNumbersFromString (COLUMN_TYPE element))"
    if "CHARACTER_MAXIMUM_LENGTH element = None \<or> CHARACTER_MAXIMUM_LENGTH element = Some 0"
    using that
    by (cases "getNumbersFromString (COLUMN_TYPE element)")
       (auto simp: normalize_element_def Let_def truthy_num_def)
  have kept: "character_maximum_length (normalize_element element) = Some n"
    if "CHARACTER_MAXIMUM_LENGTH element = Some n" and "n \<noteq> 0" for n
    using that by (simp add: normalize_element_def Let_def truthy_num_def)
  from enum set dflt null len kept getNumbersFromString_varchar show ?thesis by blast
qed

theorem structure_normalization_witness:
  "data_type_params
     (normalize_element
        \<lparr>COLUMN_NAME = ''size'', COLUMN_DEFAULT = None, DATA_TYPE = ''enum'',
         COLUMN_TYPE = ''enum('a','b','c')'', IS_NULLABLE = ''YES'', EXTRA = [],
         CHARACTER_MAXIMUM_LENGTH = Some 1\<rparr>) = Some [''a'', ''b'', ''c'']
   \<and> character_maximum_length
     (normalize_element
        \<lparr>COLUMN_NAME = ''name'', COLUMN_DEFAULT = None, DATA_TYPE = ''varchar'',
         COLUMN_TYPE = ''varchar(45)'', IS_NULLABLE = ''NO'', EXTRA = [],
         CHARACTER_MAXIMUM_LENGTH = None\<rparr>) = Some 45"
proof -
  let ?size = "\<lparr>COLUMN_NAME = ''size'', COLUMN_DEFAULT = None, DATA_TYPE = ''enum'',
      COLUMN_TYPE = ''enum('a','b','c')'', IS_NULLABLE = ''YES'', EXTRA = [],
      CHARACTER_MAXIMUM_LENGTH = Some 1\<rparr>"
  let ?name = "\<lparr>COLUMN_NAME = ''name'', COLUMN_DEFAULT = None, DATA_TYPE = ''varchar'',
      COLUMN_TYPE = ''varchar(45)'', IS_NULLABLE = ''NO'', EXTRA = [],
      CHARACTER_MAXIMUM_LENGTH = None\<rparr>"
  have h1: "[''a'', ''b'', ''c''] \<noteq> []" by simp
  have h2: "\<forall>v \<in> set [''a'', ''b'', ''c'']. CHR 0x27 \<notin> set v" by simp
  have t: "value_list_type ''enum'' [''a'', ''b'', ''c''] = ''enum('a','b','c')''"
    by (simp add: value_list_type_def quote_sep_def)
  have "data_type_params (normalize_element ?size) = Some [''a'', ''b'', ''c'']"
    using structure_normalization [OF h1 h2, of ?size] t by simp
  moreover have "character_maximum_length (normalize_element ?name) = Some 45"
    using structure_normalization [OF h1 h2, of ?name] by simp
  ultimately show ?thesis by simp
qed

end
